theory Spec2Isabelle
  imports Main "HOL-Library.Sublist" "HOL-Library.Char_ord" "HOL-Library.List_Lexorder"
begin

section \<open>Text\<close>

text \<open>
  A Python \<open>str\<close> is modelled as a \<open>string\<close>, one \<open>char\<close> per Python character, the
  \<open>char\<close> being the character's code point (so the model covers text in the range
  0..255). Slicing, \<open>in\<close>, \<open>rfind\<close>, \<open>strip\<close> and \<open>lower\<close> then count and compare what
  Python counts and compares.
\<close>

definition NL :: string where
  "NL = [CHR 0x0A]"

definition SP :: "nat \<Rightarrow> string" where
  "SP n = replicate n CHR '' ''"

text \<open>\<open>str.isspace\<close> on one character: the white space of the range 0..255.\<close>

definition py_isspace :: "char \<Rightarrow> bool" where
  "py_isspace c = ((of_char c :: nat) \<in> {9, 10, 11, 12, 13, 28, 29, 30, 31, 32, 133, 160})"

text \<open>\<open>s.strip()\<close>\<close>

definition strip :: "string \<Rightarrow> string" where
  "strip s = rev (dropWhile py_isspace (rev (dropWhile py_isspace s)))"

text \<open>\<open>s.lstrip('.')\<close>\<close>

definition lstrip_dot :: "string \<Rightarrow> string" where
  "lstrip_dot s = dropWhile (\<lambda>c. c = CHR ''.'') s"

text \<open>
  \<open>s.lower()\<close>: the capital letters of the range 0..255 are A..Z and 192..222 without the
  multiplication sign 215; each has its small letter 32 places further.
\<close>

definition lower_char :: "char \<Rightarrow> char" where
  "lower_char c =
     (let n = (of_char c :: nat)
      in if (65 \<le> n \<and> n \<le> 90) \<or> (192 \<le> n \<and> n \<le> 222 \<and> n \<noteq> 215)
         then char_of (n + 32) else c)"

definition lower :: "string \<Rightarrow> string" where
  "lower s = map lower_char s"

text \<open>\<open>sep.join(xs)\<close>\<close>

fun join :: "string \<Rightarrow> string list \<Rightarrow> string" where
  "join sep [] = []"
| "join sep [x] = x"
| "join sep (x # y # ys) = x @ sep @ join sep (y # ys)"

text \<open>\<open>s.rfind(c)\<close>: the last index of \<open>c\<close> in \<open>s\<close>, or \<open>-1\<close>.\<close>

definition rfind :: "char \<Rightarrow> string \<Rightarrow> int" where
  "rfind c s =
     (case filter (\<lambda>i. s ! i = c) (rev [0..<length s]) of
        [] \<Rightarrow> - 1
      | i # _ \<Rightarrow> int i)"

text \<open>\<open>xs[:k]\<close> for an integer \<open>k\<close>: a negative \<open>k\<close> counts from the end.\<close>

definition slice_to :: "int \<Rightarrow> 'a list \<Rightarrow> 'a list" where
  "slice_to k xs = (if 0 \<le> k then take (nat k) xs else take (length xs - nat (- k)) xs)"

section \<open>Paths and the file system\<close>

text \<open>
  A path is the list of its components. The file system is a tree: a file carries the text
  that reading it yields (\<open>None\<close> when reading it raises), a directory carries its entries
  in the order in which the operating system lists them. Paths are resolved from the
  directory the process runs in. Symbolic links and directories that cannot be listed are
  outside the model.
\<close>

type_synonym path = "string list"

datatype node = File "string option" | Dir "(string \<times> node) list"

fun resolve :: "path \<Rightarrow> node \<Rightarrow> node option" where
  "resolve [] n = Some n"
| "resolve (c # cs) n =
     (case n of
        File _ \<Rightarrow> None
      | Dir entries \<Rightarrow> (case map_of entries c of None \<Rightarrow> None | Some m \<Rightarrow> resolve cs m))"

text \<open>\<open>os.path.exists\<close>, \<open>os.path.isdir\<close>\<close>

definition path_exists :: "node \<Rightarrow> path \<Rightarrow> bool" where
  "path_exists fs p = (resolve p fs \<noteq> None)"

definition isdir :: "node \<Rightarrow> path \<Rightarrow> bool" where
  "isdir fs p = (case resolve p fs of Some (Dir _) \<Rightarrow> True | _ \<Rightarrow> False)"

text \<open>The listing of a directory; nothing for what is not a directory.\<close>

definition listing :: "node \<Rightarrow> path \<Rightarrow> (string \<times> node) list" where
  "listing fs p = (case resolve p fs of Some (Dir entries) \<Rightarrow> entries | _ \<Rightarrow> [])"

text \<open>\<open>str(path)\<close>, \<open>path.name\<close>, \<open>path.suffix\<close>, \<open>path.stem\<close> of pathlib.\<close>

definition path_str :: "path \<Rightarrow> string" where
  "path_str p = (if p = [] then ''.'' else join ''/'' p)"

definition path_name :: "path \<Rightarrow> string" where
  "path_name p = (if p = [] then [] else last p)"

definition path_suffix :: "path \<Rightarrow> string" where
  "path_suffix p =
     (let name = path_name p; i = rfind CHR ''.'' name
      in if 0 < i \<and> i < int (length name) - 1 then drop (nat i) name else [])"

definition path_stem :: "path \<Rightarrow> string" where
  "path_stem p =
     (let name = path_name p; i = rfind CHR ''.'' name
      in if 0 < i \<and> i < int (length name) - 1 then take (nat i) name else name)"

section \<open>Settings\<close>

definition ALLOWED_EXTENSIONS :: "string set" where
  "ALLOWED_EXTENSIONS =
     {''.py'', ''.cpp'', ''.h'', ''.hpp'', ''.c'', ''.java'', ''.js'', ''.ts'', ''.cs'', ''.go''}"

definition EXCLUDED_DIRS :: "string set" where
  "EXCLUDED_DIRS = {''.git'', ''.idea'', ''.vscode'', ''__pycache__'', ''.venv'', ''build''}"

section \<open>Chat state\<close>

datatype role = User | Assistant

record turn =
  role :: role
  content :: string

text \<open>
  What one POST to the chat endpoint comes to: a reply whose message content is the given
  text (the empty text when the reply has none), a \<open>RequestException\<close> with its message,
  or any other exception (a reply of an unexpected shape), which \<open>call_ollama_chat\<close> does
  not catch. The endpoint is given the whole transcript.
\<close>

datatype outcome = Replied string | RequestFailed string | Crashed string

type_synonym collaborator = "turn list \<Rightarrow> outcome"

datatype error = ChatFault string | ReadFault path | NotRelative path

text \<open>What the program prints, one event for each print statement of \<open>analyze_project\<close>.\<close>

datatype event =
    Analyzing path
  | PathError path
  | ProjectInfo string string
  | StepBanner nat
  | Response string
  | TreeDump string
  | FoundFiles nat
  | Limiting int
  | ReviewBanner nat
  | ReviewingFile nat nat path
  | ReadFailure path
  | ReviewFor path
  | FileFailure path error
  | SummaryHeader

text \<open>
  The state of the process: the global \<open>chat_history\<close>, the payloads posted to the
  endpoint so far (one \<open>messages\<close> list for each POST) and what was printed.
\<close>

record state =
  chat_history :: "turn list"
  posted :: "turn list list"
  printed :: "event list"

definition emit :: "event \<Rightarrow> state \<Rightarrow> state" where
  "emit e s = s\<lparr>printed := printed s @ [e]\<rparr>"

definition call_ollama_chat ::
  "collaborator \<Rightarrow> string \<Rightarrow> state \<Rightarrow> (error + string) \<times> state" where
  "call_ollama_chat net user_prompt s =
     (let h = chat_history s @ [\<lparr>role = User, content = user_prompt\<rparr>];
          s1 = s\<lparr>chat_history := h, posted := posted s @ [h]\<rparr>
      in case net h of
           Replied c \<Rightarrow>
             (let assistant_message = strip c
              in (Inr assistant_message,
                  s1\<lparr>chat_history := h @ [\<lparr>role = Assistant, content = assistant_message\<rparr>]\<rparr>))
         | RequestFailed e \<Rightarrow> (Inr (''[Error communicating with Ollama: '' @ e @ '']''), s1)
         | Crashed e \<Rightarrow> (Inl (ChatFault e), s1))"

text \<open>\<open>chat_history.clear()\<close>\<close>

definition clear_history :: "state \<Rightarrow> state" where
  "clear_history s = s\<lparr>chat_history := []\<rparr>"

section \<open>Project helpers\<close>

text \<open>
  The two literals of the tree rendering, which lie outside the range 0..255, stand here
  as the bytes they have in the source file.
\<close>

definition branch_mark :: string where
  "branch_mark =
     [CHR 0xE2, CHR 0x80, CHR 0x9A, CHR 0xC3, CHR 0xAE, CHR 0xC3, CHR 0xBA,
      CHR 0xE2, CHR 0x80, CHR 0x9A, CHR 0xC3, CHR 0xAE, CHR 0xC3, CHR 0x84,
      CHR 0xE2, CHR 0x80, CHR 0x9A, CHR 0xC3, CHR 0xAE, CHR 0xC3, CHR 0x84, CHR '' '']"

definition nest_mark :: string where
  "nest_mark =
     [CHR 0xE2, CHR 0x80, CHR 0x9A, CHR 0xC3, CHR 0xAE, CHR 0xC3, CHR 0x87,
      CHR '' '', CHR '' '', CHR '' '']"

text \<open>
  \<open>generate_project_tree(path, indent)\<close>, given the listing of \<open>path\<close>. The items of
  \<open>sorted(path.iterdir())\<close> are the entries in the order of their names.
\<close>

function generate_project_tree :: "(string \<times> node) list \<Rightarrow> string \<Rightarrow> string" where
  "generate_project_tree entries indent =
     join NL (concat (map
       (\<lambda>item.
          if fst item \<in> EXCLUDED_DIRS then []
          else (indent @ branch_mark @ fst item) #
               (case snd item of
                  Dir sub \<Rightarrow> [generate_project_tree sub (indent @ nest_mark)]
                | File _ \<Rightarrow> []))
       (sort_key fst entries)))"
  by pat_completeness auto
termination
proof (relation "measure (\<lambda>(entries, indent). size_list (size_prod (\<lambda>_. 0) size) entries)")
  show "wf (measure (\<lambda>(entries, indent). size_list (size_prod (\<lambda>_. 0) size) entries))"
    by simp
next
  fix entries :: "(string \<times> node) list" and indent :: string and item sub
  assume "item \<in> set (sort_key fst entries)" and "snd item = Dir sub"
  then have "item \<in> set entries \<and> snd item = Dir sub"
    by simp
  then have "size_list (size_prod (\<lambda>_. 0) size) sub
               < size_list (size_prod (\<lambda>_. 0) size) entries"
    by (induction entries) auto
  then show "((sub, indent @ nest_mark), entries, indent)
               \<in> measure (\<lambda>(entries, indent). size_list (size_prod (\<lambda>_. 0) size) entries)"
    by simp
qed

text \<open>
  \<open>collect_source_files(path)\<close>, given the listing of \<open>path\<close>: the loop over
  \<open>os.walk(path)\<close>. The walk visits a directory (its files in listing order), then the
  subdirectories left in \<open>dirs\<close>, each with all that is below it. Its listing prints do
  not bear on the result and are left out.
\<close>

function collect_source_files :: "path \<Rightarrow> (string \<times> node) list \<Rightarrow> path list" where
  "collect_source_files root entries =
     (let dirs = [d \<leftarrow> entries. (case snd d of Dir _ \<Rightarrow> True | File _ \<Rightarrow> False)];
          filenames = [fst f. f \<leftarrow> entries, (case snd f of Dir _ \<Rightarrow> False | File _ \<Rightarrow> True)];
          dirs = [d \<leftarrow> dirs. fst d \<notin> EXCLUDED_DIRS]
      in [root @ [filename]. filename \<leftarrow> filenames,
            lower (path_suffix (root @ [filename])) \<in> ALLOWED_EXTENSIONS]
         @ concat (map
             (\<lambda>d. case snd d of
                     Dir sub \<Rightarrow> collect_source_files (root @ [fst d]) sub
                   | File _ \<Rightarrow> [])
             dirs))"
  by pat_completeness auto
termination
  apply (relation "measure (\<lambda>(root, entries). size_list (size_prod (\<lambda>_. 0) size) entries)")
  apply simp
  apply clarsimp
  subgoal for entries name sub
    by (induction entries) auto
  done

section \<open>Main analysis\<close>

text \<open>
  The file budget of step 3: the statements under
  \<open>if file_limit and len(files) > file_limit\<close>, and the list left as it is otherwise.
  \<open>file_limit\<close> is \<open>None\<close> when no limit was given.
\<close>

definition important_patterns :: "string list" where
  "important_patterns = [''main'', ''app'', ''core'', ''index'']"

definition is_important :: "path \<Rightarrow> bool" where
  "is_important f = list_ex (\<lambda>pattern. sublist pattern (lower (path_stem f))) important_patterns"

definition limit_applies :: "path list \<Rightarrow> int option \<Rightarrow> bool" where
  "limit_applies files file_limit =
     (case file_limit of None \<Rightarrow> False | Some k \<Rightarrow> k \<noteq> 0 \<and> int (length files) > k)"

definition limit_files :: "path list \<Rightarrow> int option \<Rightarrow> path list" where
  "limit_files files file_limit =
     (case file_limit of
        None \<Rightarrow> files
      | Some k \<Rightarrow>
          if k \<noteq> 0 \<and> int (length files) > k
          then (let important_files = [f \<leftarrow> files. is_important f];
                    other_files = [f \<leftarrow> files. f \<notin> set important_files]
                in slice_to k (important_files @ other_files))
          else files)"

text \<open>The prompts.\<close>

definition description_prompt :: "string \<Rightarrow> string \<Rightarrow> string" where
  "description_prompt project_description project_readme =
     ''This is a description of the project:'' @ NL @ NL @ project_description @ NL @ NL
     @ ''This is the provided README.md file:'' @ NL @ NL @ project_readme @ NL @ NL
     @ ''Use this to understand its purpose.''"

definition tree_prompt :: "string \<Rightarrow> string" where
  "tree_prompt tree_str =
     ''Here is the project'' @ [CHR 0x27] @ ''s folder structure:'' @ NL @ NL @ tree_str @ NL @ NL
     @ ''Comment on any organization or architecture issues.''"

text \<open>
  The review prompt; \<open>pad\<close> is the indentation of the literal's lines in the source, 20
  in the branch with a console and 16 in the branch without.
\<close>

definition review_prompt :: "nat \<Rightarrow> path \<Rightarrow> string \<Rightarrow> string \<Rightarrow> string" where
  "review_prompt pad file ext code =
     ''You are a senior code reviewer. Please review the following file for:'' @ NL
     @ SP pad @ ''- Bugs'' @ NL
     @ SP pad @ ''- Security issues'' @ NL
     @ SP pad @ ''- Logic errors'' @ NL
     @ SP pad @ ''- Style issues'' @ NL
     @ SP pad @ ''- Maintainability'' @ NL
     @ SP pad @ ''File: '' @ path_str file @ '' Code:```'' @ ext @ NL @ code @ ''```''"

definition summary_prompt :: string where
  "summary_prompt =
     ''Based on your previous reviews of each file/files that were provided in previous prompts provided, provide a detailed project-wide summary. Please include:'' @ NL
     @ SP 11 @ ''1. Any critical bugs'' @ NL
     @ SP 11 @ ''2. Potential security issues'' @ NL
     @ SP 11 @ ''3. Overall architectural problems'' @ NL
     @ SP 11 @ ''4. Logic or flow issues'' @ NL
     @ SP 11 @ ''5. Best practice violations'' @ NL
     @ SP 11 @ ''Avoid repeating raw code. Be concise and actionable.'' @ NL"

text \<open>\<open>open(p, "r").read().strip()\<close>: it raises when \<open>p\<close> is not a file that can be read.\<close>

definition read_stripped :: "node \<Rightarrow> path \<Rightarrow> error + string" where
  "read_stripped fs p =
     (case resolve p fs of
        Some (File (Some text)) \<Rightarrow> Inr (strip text)
      | _ \<Rightarrow> Inl (ReadFault p))"

text \<open>
  The inner \<open>try\<close> of the review loop:
  \<open>file.read_text(encoding="utf-8", errors="ignore")[:3000]\<close>, with the placeholder when
  reading raises.
\<close>

definition read_code :: "node \<Rightarrow> path \<Rightarrow> state \<Rightarrow> string \<times> state" where
  "read_code fs file s =
     (case resolve file fs of
        Some (File (Some text)) \<Rightarrow> (slice_to 3000 text, s)
      | _ \<Rightarrow> (''# Error reading file content'', emit (ReadFailure file) s))"

text \<open>
  The body of the review loop for one file, in the branch with a console (\<open>rich\<close>) and in
  the branch without, where \<open>i\<close> counts the files from 1 and \<open>n\<close> is their number. The
  outer \<open>try\<close> catches every exception, also one that \<open>call_ollama_chat\<close> lets through.
  The progress bar is not modelled.
\<close>

definition review_file ::
  "bool \<Rightarrow> collaborator \<Rightarrow> node \<Rightarrow> path \<Rightarrow> nat \<Rightarrow> nat \<Rightarrow> path \<Rightarrow> state \<Rightarrow> state" where
  "review_file rich net fs project_path i n file s =
     (if rich then
        (if \<not> prefix project_path file then emit (FileFailure file (NotRelative file)) s
         else
           (let file_relative = drop (length project_path) file;
                (code, s1) = read_code fs file s;
                ext = lstrip_dot (path_suffix file);
                prompt = review_prompt 20 file ext code
            in case call_ollama_chat net prompt s1 of
                 (Inr response, s2) \<Rightarrow> emit (Response response) (emit (ReviewFor file_relative) s2)
               | (Inl e, s2) \<Rightarrow> emit (FileFailure file e) s2))
      else
        (let s0 = emit (ReviewingFile i n file) s;
             (code, s1) = read_code fs file s0;
             ext = lstrip_dot (path_suffix file);
             prompt = review_prompt 16 file ext code
         in case call_ollama_chat net prompt s1 of
              (Inr response, s2) \<Rightarrow> emit (Response response) s2
            | (Inl e, s2) \<Rightarrow> emit (FileFailure file e) s2))"

fun review_files ::
  "bool \<Rightarrow> collaborator \<Rightarrow> node \<Rightarrow> path \<Rightarrow> nat \<Rightarrow> nat \<Rightarrow> path list \<Rightarrow> state \<Rightarrow> state" where
  "review_files rich net fs project_path i n [] s = s"
| "review_files rich net fs project_path i n (file # files) s =
     review_files rich net fs project_path (Suc i) n files
       (review_file rich net fs project_path i n file s)"

text \<open>
  \<open>analyze_project(project_dir, project_description, file_limit)\<close>, run with or without a
  console, against an endpoint and a file system. The result is \<open>None\<close> when the function
  returns and the exception when one leaves it.
\<close>

definition analyze_project ::
  "bool \<Rightarrow> collaborator \<Rightarrow> node \<Rightarrow> path \<Rightarrow> string \<Rightarrow> int option \<Rightarrow> state
     \<Rightarrow> error option \<times> state" where
  "analyze_project rich net fs project_dir project_description file_limit s =
     (let s0 = emit (Analyzing project_dir) s;
          project_path = project_dir
      in if \<not> isdir fs project_dir \<or> \<not> path_exists fs project_path
         then (None, emit (PathError project_dir) s0)
         else
           case (if path_exists fs (project_dir @ [''README.md''])
                 then read_stripped fs (project_dir @ [''README.md''])
                 else Inr ''README.md not found.'') of
             Inl e \<Rightarrow> (Some e, s0)
           | Inr project_readme \<Rightarrow>
           (let s1 = emit (StepBanner 1) (emit (ProjectInfo project_description project_readme) s0)
            in case call_ollama_chat net (description_prompt project_description project_readme) s1 of
             (Inl e, s2) \<Rightarrow> (Some e, s2)
           | (Inr response, s2) \<Rightarrow>
           (let s3 = emit (StepBanner 2) (emit (Response response) s2);
                tree_str = generate_project_tree (listing fs project_path) [];
                s4 = emit (TreeDump tree_str) s3
            in case call_ollama_chat net (tree_prompt tree_str) s4 of
             (Inl e, s5) \<Rightarrow> (Some e, s5)
           | (Inr response, s5) \<Rightarrow>
           (let s6 = emit (Response response) s5;
                files = collect_source_files project_path (listing fs project_path);
                s7 = emit (FoundFiles (length files)) s6;
                s8 = (if limit_applies files file_limit
                      then emit (Limiting (case file_limit of Some k \<Rightarrow> k | None \<Rightarrow> 0)) s7
                      else s7);
                files = limit_files files file_limit;
                s9 = emit (ReviewBanner (length files)) s8;
                s10 = review_files rich net fs project_path 1 (length files) files s9;
                s11 = emit (StepBanner 4) s10
            in case call_ollama_chat net summary_prompt s11 of
             (Inl e, s12) \<Rightarrow> (Some e, s12)
           | (Inr response, s12) \<Rightarrow>
               (None, clear_history (emit (Response response) (emit SummaryHeader s12)))))))"

section \<open>Running the script\<close>

text \<open>
  The parsed command line: \<open>arg_dir\<close> and \<open>arg_description\<close> are \<open>None\<close> when the option is
  absent or empty (what \<open>or\<close> takes for false), \<open>arg_limit\<close> when it is absent.
\<close>

record args =
  arg_dir :: "path option"
  arg_description :: "string option"
  arg_limit :: "int option"

definition default_dir :: path where
  "default_dir = [''C:'', ''Users'', ''aleks'', ''Desktop'', ''Python Projects'', ''Visualization'']"

text \<open>
  The script: the exit status is 0 when it runs to its end and 1 when an exception leaves
  it.
\<close>

definition main :: "bool \<Rightarrow> collaborator \<Rightarrow> node \<Rightarrow> args \<Rightarrow> state \<Rightarrow> nat \<times> state" where
  "main rich net fs a s =
     (let project_dir = (case arg_dir a of Some d \<Rightarrow> d | None \<Rightarrow> default_dir);
          project_description =
            (case arg_description a of Some d \<Rightarrow> d | None \<Rightarrow> ''This is an app'');
          desc_path = project_dir @ [''description.txt'']
      in case (if path_exists fs desc_path then read_stripped fs desc_path
               else Inr project_description) of
           Inl e \<Rightarrow> (1, s)
         | Inr project_description \<Rightarrow>
             (case analyze_project rich net fs project_dir project_description (arg_limit a) s of
                (None, s') \<Rightarrow> (0, s')
              | (Some e, s') \<Rightarrow> (1, s')))"

section \<open>Notions of the statements\<close>

text \<open>A run of submissions, each with the prompt and with what the endpoint does then.\<close>

fun submits :: "(collaborator \<times> string) list \<Rightarrow> state \<Rightarrow> state" where
  "submits [] s = s"
| "submits (c # cs) s = submits cs (snd (call_ollama_chat (fst c) (snd c) s))"

text \<open>Every assistant turn of a transcript comes right after a user turn.\<close>

definition answered :: "turn list \<Rightarrow> bool" where
  "answered h = (\<forall>i < length h. role (h ! i) = Assistant \<longrightarrow> 0 < i \<and> role (h ! (i - 1)) = User)"

text \<open>
  The rendering of the tree with the origin of each of its lines: the path, from the
  rendered directory, of the entry a line names, and \<open>None\<close> for the empty text that the
  rendering of a directory with no line stands for.
\<close>

function tree_rows :: "path \<Rightarrow> (string \<times> node) list \<Rightarrow> string \<Rightarrow> (path option \<times> string) list" where
  "tree_rows p entries indent =
     concat (map
       (\<lambda>item.
          if fst item \<in> EXCLUDED_DIRS then []
          else (Some (p @ [fst item]), indent @ branch_mark @ fst item) #
               (case snd item of
                  Dir sub \<Rightarrow>
                    (let rows = tree_rows (p @ [fst item]) sub (indent @ nest_mark)
                     in if rows = [] then [(None, [])] else rows)
                | File _ \<Rightarrow> []))
       (sort_key fst entries))"
  by pat_completeness auto
termination
proof (relation "measure (\<lambda>(p, entries, indent). size_list (size_prod (\<lambda>_. 0) size) entries)")
  show "wf (measure (\<lambda>(p, entries, indent). size_list (size_prod (\<lambda>_. 0) size) entries))"
    by simp
next
  fix p :: path and entries :: "(string \<times> node) list" and indent :: string and item sub
  assume "item \<in> set (sort_key fst entries)" and "snd item = Dir sub"
  then have "item \<in> set entries \<and> snd item = Dir sub"
    by simp
  then have "size_list (size_prod (\<lambda>_. 0) size) sub
               < size_list (size_prod (\<lambda>_. 0) size) entries"
    by (induction entries) auto
  then show "((p @ [fst item], sub, indent @ nest_mark), p, entries, indent)
               \<in> measure (\<lambda>(p, entries, indent). size_list (size_prod (\<lambda>_. 0) size) entries)"
    by simp
qed

section \<open>The conversation\<close>

lemma call_ollama_chat_history:
  "chat_history (snd (call_ollama_chat net p s)) =
     chat_history s @ [\<lparr>role = User, content = p\<rparr>]
     @ (case net (chat_history s @ [\<lparr>role = User, content = p\<rparr>]) of
          Replied c \<Rightarrow> [\<lparr>role = Assistant, content = strip c\<rparr>]
        | RequestFailed e \<Rightarrow> []
        | Crashed e \<Rightarrow> [])"
  by (simp add: call_ollama_chat_def Let_def split: outcome.splits)

lemma call_ollama_chat_posted:
  "posted (snd (call_ollama_chat net p s)) =
     posted s @ [chat_history s @ [\<lparr>role = User, content = p\<rparr>]]"
  by (simp add: call_ollama_chat_def Let_def split: outcome.splits)

lemma call_ollama_chat_printed:
  "printed (snd (call_ollama_chat net p s)) = printed s"
  by (simp add: call_ollama_chat_def Let_def split: outcome.splits)

text \<open>
  C1. When the endpoint fails with a request error, \<open>call_ollama_chat\<close> appends the user
  turn and no assistant turn, returns the placeholder error message, and the next
  submission is taken as usual: when the endpoint replies to it, its user turn and the
  reply are appended after the unanswered user turn and the reply is returned.
\<close>

theorem failed_submit:
  assumes "net (chat_history s @ [\<lparr>role = User, content = p\<rparr>]) = RequestFailed e"
  shows "call_ollama_chat net p s =
           (Inr (''[Error communicating with Ollama: '' @ e @ '']''),
            s\<lparr>chat_history := chat_history s @ [\<lparr>role = User, content = p\<rparr>],
              posted := posted s @ [chat_history s @ [\<lparr>role = User, content = p\<rparr>]]\<rparr>)
         \<and> (\<forall>net' p' c.
              net' (chat_history s @ [\<lparr>role = User, content = p\<rparr>, \<lparr>role = User, content = p'\<rparr>])
                = Replied c \<longrightarrow>
              fst (call_ollama_chat net' p' (snd (call_ollama_chat net p s))) = Inr (strip c)
              \<and> chat_history (snd (call_ollama_chat net' p' (snd (call_ollama_chat net p s))))
                  = chat_history s @ [\<lparr>role = User, content = p\<rparr>, \<lparr>role = User, content = p'\<rparr>,
                                      \<lparr>role = Assistant, content = strip c\<rparr>])"
  using assms by (simp add: call_ollama_chat_def Let_def)

theorem failed_submit_witness:
  "(\<lambda>h. RequestFailed ''down'')
     (chat_history \<lparr>chat_history = [], posted = [], printed = []\<rparr> @ [\<lparr>role = User, content = ''A''\<rparr>])
     = RequestFailed ''down''
   \<and> call_ollama_chat (\<lambda>h. RequestFailed ''down'') ''A''
       \<lparr>chat_history = [], posted = [], printed = []\<rparr>
     = (Inr ''[Error communicating with Ollama: down]'',
        \<lparr>chat_history = [\<lparr>role = User, content = ''A''\<rparr>],
         posted = [[\<lparr>role = User, content = ''A''\<rparr>]], printed = []\<rparr>)"
  using failed_submit [of "\<lambda>h. RequestFailed ''down''"
      "\<lparr>chat_history = [], posted = [], printed = []\<rparr>" "''A''" "''down''"]
  by simp

lemma answered_snoc_user:
  "answered h \<Longrightarrow> answered (h @ [\<lparr>role = User, content = p\<rparr>])"
  by (auto simp: answered_def nth_append less_Suc_eq)

lemma answered_snoc_user_assistant:
  "answered h \<Longrightarrow> answered (h @ [\<lparr>role = User, content = p\<rparr>, \<lparr>role = Assistant, content = r\<rparr>])"
  by (auto simp: answered_def nth_append less_Suc_eq nth_Cons split: nat.splits)

lemma call_ollama_chat_answered:
  "answered (chat_history s) \<Longrightarrow> answered (chat_history (snd (call_ollama_chat net p s)))"
  using answered_snoc_user answered_snoc_user_assistant
  by (auto simp add: call_ollama_chat_history split: outcome.splits)

lemma submits_prefix: "prefix (chat_history s) (chat_history (submits cs s))"
proof (induction cs arbitrary: s)
  case Nil
  show ?case by simp
next
  case (Cons c cs)
  have "prefix (chat_history s) (chat_history (snd (call_ollama_chat (fst c) (snd c) s)))"
    by (simp add: call_ollama_chat_history)
  also have "prefix \<dots> (chat_history (submits (c # cs) s))"
    using Cons.IH by simp
  finally show ?case .
qed

lemma submits_answered:
  "answered (chat_history s) \<Longrightarrow> answered (chat_history (submits cs s))"
  by (induction cs arbitrary: s) (auto intro: call_ollama_chat_answered)

text \<open>
  C2. Over any run of submissions, each replied to or failing, from a transcript in which
  every assistant turn comes right after a user turn: the same holds of the transcript
  after the run, the transcript before the run is a prefix of it (no turn is moved or
  removed) and it is no shorter. One submission appends its user turn and, right after
  it, the assistant turn with the reply to it when there is one.
\<close>

theorem transcript_invariant:
  assumes "answered (chat_history s)"
  shows "answered (chat_history (submits cs s))
       \<and> prefix (chat_history s) (chat_history (submits cs s))
       \<and> length (chat_history s) \<le> length (chat_history (submits cs s))
       \<and> chat_history (snd (call_ollama_chat net p s))
           = chat_history s @ [\<lparr>role = User, content = p\<rparr>]
             @ (case net (chat_history s @ [\<lparr>role = User, content = p\<rparr>]) of
                  Replied c \<Rightarrow> [\<lparr>role = Assistant, content = strip c\<rparr>]
                | RequestFailed e \<Rightarrow> []
                | Crashed e \<Rightarrow> [])"
  using submits_answered [OF assms] submits_prefix [of s cs] call_ollama_chat_history [of net p s]
  by (simp add: prefix_length_le)

theorem transcript_invariant_witness:
  "answered (chat_history \<lparr>chat_history = [], posted = [], printed = []\<rparr>)
   \<and> answered (chat_history (submits
        [(\<lambda>h. Replied ''ok'', ''A''), (\<lambda>h. RequestFailed ''down'', ''B'')]
        \<lparr>chat_history = [], posted = [], printed = []\<rparr>))
   \<and> length (chat_history \<lparr>chat_history = [], posted = [], printed = []\<rparr>)
       \<le> length (chat_history (submits
            [(\<lambda>h. Replied ''ok'', ''A''), (\<lambda>h. RequestFailed ''down'', ''B'')]
            \<lparr>chat_history = [], posted = [], printed = []\<rparr>))"
proof -
  have h: "answered (chat_history \<lparr>chat_history = [], posted = [], printed = []\<rparr>)"
    by (simp add: answered_def)
  show ?thesis
    using h transcript_invariant [OF h,
        of "[(\<lambda>h. Replied ''ok'', ''A''), (\<lambda>h. RequestFailed ''down'', ''B'')]"]
    by simp
qed

text \<open>
  C7, as the claim states it, fails: a submission after \<open>chat_history.clear()\<close> is taken,
  it is answered and it leaves two new turns in the transcript.
\<close>

theorem reset_not_terminal:
  "fst (call_ollama_chat (\<lambda>h. Replied ''hello'') ''A''
          (clear_history \<lparr>chat_history = [\<lparr>role = User, content = ''old''\<rparr>],
                          posted = [], printed = []\<rparr>))
     = Inr ''hello''
   \<and> chat_history (snd (call_ollama_chat (\<lambda>h. Replied ''hello'') ''A''
          (clear_history \<lparr>chat_history = [\<lparr>role = User, content = ''old''\<rparr>],
                          posted = [], printed = []\<rparr>)))
     = [\<lparr>role = User, content = ''A''\<rparr>, \<lparr>role = Assistant, content = ''hello''\<rparr>]"
  by (simp add: call_ollama_chat_def clear_history_def strip_def py_isspace_def Let_def)

text \<open>
  C7, amended. \<open>chat_history.clear()\<close> always leaves an empty transcript and clearing twice
  is clearing once; there is no state in which submissions are refused: a submission
  after the clearing starts a new transcript with its user turn, followed by the reply
  when the endpoint gives one, and that reply is returned.
\<close>

theorem reset_then_submit:
  "chat_history (clear_history s) = []
   \<and> clear_history (clear_history s) = clear_history s
   \<and> chat_history (snd (call_ollama_chat net p (clear_history s)))
       = \<lparr>role = User, content = p\<rparr>
         # (case net [\<lparr>role = User, content = p\<rparr>] of
              Replied c \<Rightarrow> [\<lparr>role = Assistant, content = strip c\<rparr>]
            | RequestFailed e \<Rightarrow> []
            | Crashed e \<Rightarrow> [])
   \<and> (\<forall>c. net [\<lparr>role = User, content = p\<rparr>] = Replied c
          \<longrightarrow> fst (call_ollama_chat net p (clear_history s)) = Inr (strip c))"
  by (simp add: call_ollama_chat_def clear_history_def Let_def split: outcome.splits)

theorem reset_then_submit_witness:
  "chat_history (clear_history \<lparr>chat_history = [\<lparr>role = User, content = ''old''\<rparr>],
                                posted = [], printed = []\<rparr>) = []
   \<and> (\<lambda>h. Replied ''hello'') [\<lparr>role = User, content = ''A''\<rparr>] = Replied ''hello''
   \<and> fst (call_ollama_chat (\<lambda>h. Replied ''hello'') ''A''
          (clear_history \<lparr>chat_history = [\<lparr>role = User, content = ''old''\<rparr>],
                          posted = [], printed = []\<rparr>))
       = Inr (strip ''hello'')"
  using reset_then_submit [of "\<lparr>chat_history = [\<lparr>role = User, content = ''old''\<rparr>],
                                posted = [], printed = []\<rparr>" "\<lambda>h. Replied ''hello''" "''A''"]
  by simp

section \<open>The file budget\<close>

lemma other_files_filter:
  "[f \<leftarrow> files. f \<notin> set [f \<leftarrow> files. P f]] = [f \<leftarrow> files. \<not> P f]"
  by (rule filter_cong) auto

lemma limit_files_take:
  assumes "0 < k" and "k < int (length files)"
  shows "limit_files files (Some k) =
           take (nat k) ([f \<leftarrow> files. is_important f] @ [f \<leftarrow> files. \<not> is_important f])"
  unfolding limit_files_def Let_def other_files_filter slice_to_def
  using assms by (simp del: take_append)

lemma length_partition:
  "length ([f \<leftarrow> files. P f] @ [f \<leftarrow> files. \<not> P f]) = length files"
  using sum_length_filter_compl [of P files] by simp

lemma take_partition_precedes:
  assumes "\<forall>x \<in> set A. P x" and "\<forall>x \<in> set B. \<not> P x"
    and "i < length (take n (A @ B))" and "j < length (take n (A @ B))"
    and "P (take n (A @ B) ! i)" and "\<not> P (take n (A @ B) ! j)"
  shows "i < j"
proof -
  have i: "take n (A @ B) ! i = (A @ B) ! i" and j: "take n (A @ B) ! j = (A @ B) ! j"
    using assms(3,4) by (simp_all del: take_append)
  have "i < length A"
  proof (rule ccontr)
    assume "\<not> i < length A"
    then have "(A @ B) ! i \<in> set B"
      using assms(3) by (simp add: nth_append)
    then show False using assms(2,5) i by simp
  qed
  moreover have "\<not> j < length A"
  proof
    assume "j < length A"
    then have "(A @ B) ! j \<in> set A"
      by (simp add: nth_append)
    then show False using assms(1,6) j by simp
  qed
  ultimately show ?thesis by simp
qed

lemma filter_take_partition:
  assumes "\<forall>x \<in> set A. P x" and "\<forall>x \<in> set B. \<not> P x"
  shows "filter P (take n (A @ B)) = take n A"
    and "filter (\<lambda>x. \<not> P x) (take n (A @ B)) = take (n - length A) B"
proof -
  have A: "\<forall>x \<in> set (take n A). P x" and B: "\<forall>x \<in> set (take (n - length A) B). \<not> P x"
    using assms by (auto dest: in_set_takeD)
  show "filter P (take n (A @ B)) = take n A"
    using A B by (simp add: filter_empty_conv)
  show "filter (\<lambda>x. \<not> P x) (take n (A @ B)) = take (n - length A) B"
    using A B by (simp add: filter_empty_conv)
qed

lemma important_Main: "is_important [''src'', ''Main.py'']"
  by code_simp

lemma important_main: "is_important [''main.py'']"
  by code_simp

lemma not_important_util: "\<not> is_important [''util.py'']"
  by code_simp

lemma not_important_notes: "\<not> is_important [''notes.py'']"
  by code_simp

text \<open>
  C3, as the claim states it, fails at the limit 0, which is below the length of a list
  of two files: the list comes back whole, with more than 0 files, and its file that
  matches a marker comes after the one that matches none.
\<close>

theorem budget_zero_limit:
  "(0 :: int) < int (length [[''util.py''], [''main.py'']])
   \<and> \<not> length (limit_files [[''util.py''], [''main.py'']] (Some 0)) \<le> nat 0
   \<and> limit_files [[''util.py''], [''main.py'']] (Some 0) = [[''util.py''], [''main.py'']]
   \<and> is_important (limit_files [[''util.py''], [''main.py'']] (Some 0) ! 1)
   \<and> \<not> is_important (limit_files [[''util.py''], [''main.py'']] (Some 0) ! 0)"
  using important_main not_important_util by (simp add: limit_files_def)

text \<open>
  C3, amended. For every list of files and every limit \<open>k\<close> with \<open>0 < k\<close> and \<open>k\<close> below
  the length of the list, the budgeted list has exactly \<open>k\<close> files, every file of it
  whose stem, in lower case, contains a marker comes before every file of it that
  contains none, and the files of either kind are the first ones of that kind in the
  given list, in the order they have there.
\<close>

theorem budget_priority:
  assumes "0 < k" and "k < int (length files)"
  shows "length (limit_files files (Some k)) = nat k
       \<and> (\<forall>i j. i < length (limit_files files (Some k)) \<and> j < length (limit_files files (Some k))
              \<and> is_important (limit_files files (Some k) ! i)
              \<and> \<not> is_important (limit_files files (Some k) ! j) \<longrightarrow> i < j)
       \<and> prefix [f \<leftarrow> limit_files files (Some k). is_important f] [f \<leftarrow> files. is_important f]
       \<and> prefix [f \<leftarrow> limit_files files (Some k). \<not> is_important f] [f \<leftarrow> files. \<not> is_important f]"
proof (intro conjI allI impI)
  let ?A = "[f \<leftarrow> files. is_important f]" and ?B = "[f \<leftarrow> files. \<not> is_important f]"
  have r: "limit_files files (Some k) = take (nat k) (?A @ ?B)"
    using assms by (rule limit_files_take)
  have A: "\<forall>x \<in> set ?A. is_important x" and B: "\<forall>x \<in> set ?B. \<not> is_important x"
    by simp_all
  show "length (limit_files files (Some k)) = nat k"
    using assms length_partition [of is_important files] unfolding r by simp
  show "prefix [f \<leftarrow> limit_files files (Some k). is_important f] ?A"
    unfolding r filter_take_partition(1) [OF A B] by (rule take_is_prefix)
  show "prefix [f \<leftarrow> limit_files files (Some k). \<not> is_important f] ?B"
    unfolding r filter_take_partition(2) [OF A B] by (rule take_is_prefix)
  fix i j
  assume "i < length (limit_files files (Some k)) \<and> j < length (limit_files files (Some k))
              \<and> is_important (limit_files files (Some k) ! i)
              \<and> \<not> is_important (limit_files files (Some k) ! j)"
  then show "i < j"
    unfolding r using take_partition_precedes [OF A B] by blast
qed

theorem budget_priority_witness:
  "(0 :: int) < 2 \<and> (2 :: int) < int (length [[''util.py''], [''main.py''], [''notes.py'']])
   \<and> length (limit_files [[''util.py''], [''main.py''], [''notes.py'']] (Some 2)) = nat 2
   \<and> prefix [f \<leftarrow> limit_files [[''util.py''], [''main.py''], [''notes.py'']] (Some 2). is_important f]
        [f \<leftarrow> [[''util.py''], [''main.py''], [''notes.py'']]. is_important f]"
proof -
  have h1: "(0 :: int) < 2"
    and h2: "(2 :: int) < int (length [[''util.py''], [''main.py''], [''notes.py'']])"
    by simp_all
  show ?thesis
    using h1 h2 budget_priority [OF h1 h2] by simp
qed

text \<open>
  C4. With no limit the budget returns the list as it is, and so it does with a limit
  equal to the length of the list and with any limit that the list is within.
\<close>

theorem budget_noop:
  "limit_files files None = files
   \<and> limit_files files (Some (int (length files))) = files
   \<and> (int (length files) \<le> k \<longrightarrow> limit_files files (Some k) = files)"
  by (simp add: limit_files_def)

theorem budget_noop_witness:
  "limit_files [[''util.py''], [''main.py'']] None = [[''util.py''], [''main.py'']]
   \<and> int (length [[''util.py''], [''main.py'']]) \<le> 5
   \<and> limit_files [[''util.py''], [''main.py'']] (Some 5) = [[''util.py''], [''main.py'']]"
  using budget_noop [of "[[''util.py''], [''main.py'']]" 5] by simp


section \<open>The pipeline\<close>

lemma resolve_append:
  "resolve (p @ q) n = (case resolve p n of None \<Rightarrow> None | Some m \<Rightarrow> resolve q m)"
  by (induction p arbitrary: n) (auto split: node.splits option.splits)

lemma not_isdir_no_child: "\<not> isdir fs p \<Longrightarrow> \<not> path_exists fs (p @ [c])"
  by (auto simp: isdir_def path_exists_def resolve_append split: option.splits node.splits)

lemma not_exists_not_isdir: "\<not> path_exists fs p \<Longrightarrow> \<not> isdir fs p"
  by (simp add: isdir_def path_exists_def)

lemma analyze_project_invalid:
  "\<not> isdir fs p \<Longrightarrow>
     analyze_project rich net fs p d l s = (None, emit (PathError p) (emit (Analyzing p) s))"
  by (simp add: analyze_project_def Let_def)

lemma main_invalid:
  assumes "\<not> isdir fs (case arg_dir a of Some d \<Rightarrow> d | None \<Rightarrow> default_dir)"
  shows "main rich net fs a s =
           (0, emit (PathError (case arg_dir a of Some d \<Rightarrow> d | None \<Rightarrow> default_dir))
                 (emit (Analyzing (case arg_dir a of Some d \<Rightarrow> d | None \<Rightarrow> default_dir)) s))"
  using assms not_isdir_no_child [OF assms, of "''description.txt''"]
  by (simp add: main_def Let_def analyze_project_invalid)

text \<open>
  C5. For a project directory that does not exist or is not a directory,
  \<open>analyze_project\<close> returns with nothing posted to the endpoint and the transcript as
  it was, and so does the script run on it.
\<close>

theorem invalid_path_no_chat:
  assumes "\<not> path_exists fs p \<or> \<not> isdir fs p"
  shows "fst (analyze_project rich net fs p d l s) = None
       \<and> posted (snd (analyze_project rich net fs p d l s)) = posted s
       \<and> chat_history (snd (analyze_project rich net fs p d l s)) = chat_history s
       \<and> posted (snd (main rich net fs \<lparr>arg_dir = Some p, arg_description = ad, arg_limit = l\<rparr> s))
           = posted s
       \<and> chat_history (snd (main rich net fs \<lparr>arg_dir = Some p, arg_description = ad, arg_limit = l\<rparr> s))
           = chat_history s"
proof -
  have "\<not> isdir fs p"
    using assms not_exists_not_isdir by blast
  then show ?thesis
    using main_invalid [of fs "\<lparr>arg_dir = Some p, arg_description = ad, arg_limit = l\<rparr>" rich net s]
    by (simp add: analyze_project_invalid emit_def)
qed

theorem invalid_path_no_chat_witness:
  "\<not> path_exists (Dir [(''notes.txt'', File (Some ''x''))]) [''notes.txt'', ''src'']
   \<and> posted (snd (analyze_project False (\<lambda>h. Replied ''ok'')
        (Dir [(''notes.txt'', File (Some ''x''))]) [''notes.txt'', ''src''] ''demo'' None
        \<lparr>chat_history = [], posted = [], printed = []\<rparr>)) = []
   \<and> chat_history (snd (analyze_project False (\<lambda>h. Replied ''ok'')
        (Dir [(''notes.txt'', File (Some ''x''))]) [''notes.txt'', ''src''] ''demo'' None
        \<lparr>chat_history = [], posted = [], printed = []\<rparr>)) = []"
proof -
  have e: "\<not> path_exists (Dir [(''notes.txt'', File (Some ''x''))]) [''notes.txt'', ''src'']"
    by (simp add: path_exists_def)
  then have h: "\<not> path_exists (Dir [(''notes.txt'', File (Some ''x''))]) [''notes.txt'', ''src'']
      \<or> \<not> isdir (Dir [(''notes.txt'', File (Some ''x''))]) [''notes.txt'', ''src'']"
    by (rule disjI1)
  show ?thesis
    using e invalid_path_no_chat [OF h, of False "\<lambda>h. Replied ''ok''" "''demo''" None
        "\<lparr>chat_history = [], posted = [], printed = []\<rparr>"]
    by simp
qed

text \<open>
  C6, as the claim states it, fails: run on a directory that does not exist, the script
  prints its diagnostic and ends with the exit status 0, the status of success.
\<close>

theorem invalid_dir_exit_status:
  "\<not> isdir (Dir []) [''nowhere'']
   \<and> main False (\<lambda>h. Replied ''ok'') (Dir [])
       \<lparr>arg_dir = Some [''nowhere''], arg_description = None, arg_limit = None\<rparr>
       \<lparr>chat_history = [], posted = [], printed = []\<rparr>
     = (0, \<lparr>chat_history = [], posted = [],
            printed = [Analyzing [''nowhere''], PathError [''nowhere'']]\<rparr>)"
  by (simp add: main_def analyze_project_def isdir_def path_exists_def emit_def Let_def)

text \<open>
  C6, amended. Run on a project directory that does not exist or is not a directory,
  the script prints the diagnostic that names the path and ends there, without going on
  to the analysis: nothing else is printed, nothing is posted, and the exit status is 0.
\<close>

theorem invalid_dir_diagnostic:
  assumes "\<not> isdir fs (case arg_dir a of Some d \<Rightarrow> d | None \<Rightarrow> default_dir)"
  shows "main rich net fs a s =
           (0, s\<lparr>printed := printed s
                    @ [Analyzing (case arg_dir a of Some d \<Rightarrow> d | None \<Rightarrow> default_dir),
                       PathError (case arg_dir a of Some d \<Rightarrow> d | None \<Rightarrow> default_dir)]\<rparr>)"
  using main_invalid [OF assms] by (simp add: emit_def)

theorem invalid_dir_diagnostic_witness:
  "\<not> isdir (Dir [(''notes.txt'', File (Some ''x''))])
       (case arg_dir \<lparr>arg_dir = Some [''notes.txt''], arg_description = None, arg_limit = None\<rparr> of
          Some d \<Rightarrow> d | None \<Rightarrow> default_dir)
   \<and> main True (\<lambda>h. Replied ''ok'') (Dir [(''notes.txt'', File (Some ''x''))])
       \<lparr>arg_dir = Some [''notes.txt''], arg_description = None, arg_limit = None\<rparr>
       \<lparr>chat_history = [], posted = [], printed = []\<rparr>
     = (0, \<lparr>chat_history = [], posted = [],
            printed = [Analyzing [''notes.txt''], PathError [''notes.txt'']]\<rparr>)"
proof -
  have h: "\<not> isdir (Dir [(''notes.txt'', File (Some ''x''))])
       (case arg_dir \<lparr>arg_dir = Some [''notes.txt''], arg_description = None, arg_limit = None\<rparr> of
          Some d \<Rightarrow> d | None \<Rightarrow> default_dir)"
    by (simp add: isdir_def)
  show ?thesis
    using h invalid_dir_diagnostic [OF h, of True "\<lambda>h. Replied ''ok''"
        "\<lparr>chat_history = [], posted = [], printed = []\<rparr>"]
    by simp
qed

lemma read_code_text:
  "resolve file fs = Some (File (Some text)) \<Longrightarrow>
     read_code fs file s = (if 3000 < length text then take 3000 text else text, s)"
  by (simp add: read_code_def slice_to_def)

lemma review_file_posted:
  assumes "resolve file fs = Some (File (Some text))"
    and "rich \<longrightarrow> prefix project_path file"
  shows "posted (review_file rich net fs project_path i n file s) =
           posted s @ [chat_history s @
             [\<lparr>role = User,
               content = review_prompt (if rich then 20 else 16) file (lstrip_dot (path_suffix file))
                           (if 3000 < length text then take 3000 text else text)\<rparr>]]"
  using assms
  by (auto simp add: review_file_def Let_def read_code_text emit_def call_ollama_chat_def
      split: prod.splits sum.splits outcome.splits)

text \<open>
  C9. For a file that can be read, the review prompt that is posted is the five-point
  request, the name of the file and its extension, and then, between the code fences,
  the first 3000 characters of its text when the text is longer than 3000 characters,
  and the text as it is otherwise. (In the branch with a console the file lies below
  the project directory, as every collected file does.)
\<close>

theorem review_truncation:
  assumes "resolve file fs = Some (File (Some text))"
    and "rich \<longrightarrow> prefix project_path file"
  shows "posted (review_file rich net fs project_path i n file s) =
           posted s @ [chat_history s @
             [\<lparr>role = User,
               content =
                 ''You are a senior code reviewer. Please review the following file for:'' @ NL
                 @ SP (if rich then 20 else 16) @ ''- Bugs'' @ NL
                 @ SP (if rich then 20 else 16) @ ''- Security issues'' @ NL
                 @ SP (if rich then 20 else 16) @ ''- Logic errors'' @ NL
                 @ SP (if rich then 20 else 16) @ ''- Style issues'' @ NL
                 @ SP (if rich then 20 else 16) @ ''- Maintainability'' @ NL
                 @ SP (if rich then 20 else 16) @ ''File: '' @ path_str file
                 @ '' Code:```'' @ lstrip_dot (path_suffix file) @ NL
                 @ (if 3000 < length text then take 3000 text else text)
                 @ ''```''\<rparr>]]
       \<and> (3000 < length text \<longrightarrow> length (take 3000 text) = 3000)"
proof
  show "posted (review_file rich net fs project_path i n file s) =
           posted s @ [chat_history s @
             [\<lparr>role = User,
               content =
                 ''You are a senior code reviewer. Please review the following file for:'' @ NL
                 @ SP (if rich then 20 else 16) @ ''- Bugs'' @ NL
                 @ SP (if rich then 20 else 16) @ ''- Security issues'' @ NL
                 @ SP (if rich then 20 else 16) @ ''- Logic errors'' @ NL
                 @ SP (if rich then 20 else 16) @ ''- Style issues'' @ NL
                 @ SP (if rich then 20 else 16) @ ''- Maintainability'' @ NL
                 @ SP (if rich then 20 else 16) @ ''File: '' @ path_str file
                 @ '' Code:```'' @ lstrip_dot (path_suffix file) @ NL
                 @ (if 3000 < length text then take 3000 text else text)
                 @ ''```''\<rparr>]]"
    using review_file_posted [OF assms, of net i n s]
    by (simp only: review_prompt_def)
  show "3000 < length text \<longrightarrow> length (take 3000 text) = 3000"
    by simp
qed

lemma demo_ext: "lstrip_dot (path_suffix [''main.py'']) = ''py''"
  by code_simp

lemma demo_name: "path_str [''main.py''] = ''main.py''"
  by (simp add: path_str_def)

lemma demo_cut:
  "(if 3000 < length (replicate 3001 CHR ''x'') then take 3000 (replicate 3001 CHR ''x'')
    else replicate 3001 CHR ''x'') = replicate 3000 CHR ''x''"
  by simp

theorem review_truncation_witness:
  "resolve [''main.py''] (Dir [(''main.py'', File (Some (replicate 3001 CHR ''x'')))])
     = Some (File (Some (replicate 3001 CHR ''x'')))
   \<and> posted (review_file False (\<lambda>h. Replied ''ok'')
        (Dir [(''main.py'', File (Some (replicate 3001 CHR ''x'')))]) [] 1 1 [''main.py'']
        \<lparr>chat_history = [], posted = [], printed = []\<rparr>)
     = [[\<lparr>role = User,
          content =
            ''You are a senior code reviewer. Please review the following file for:'' @ NL
            @ SP 16 @ ''- Bugs'' @ NL
            @ SP 16 @ ''- Security issues'' @ NL
            @ SP 16 @ ''- Logic errors'' @ NL
            @ SP 16 @ ''- Style issues'' @ NL
            @ SP 16 @ ''- Maintainability'' @ NL
            @ SP 16 @ ''File: '' @ ''main.py'' @ '' Code:```'' @ ''py'' @ NL
            @ replicate 3000 CHR ''x''
            @ ''```''\<rparr>]]"
proof -
  have h: "resolve [''main.py''] (Dir [(''main.py'', File (Some (replicate 3001 CHR ''x'')))])
     = Some (File (Some (replicate 3001 CHR ''x'')))"
    by simp
  have g: "False \<longrightarrow> prefix [] [''main.py'']"
    by simp
  have e: "chat_history \<lparr>chat_history = [], posted = [], printed = []\<rparr> = []"
    "posted \<lparr>chat_history = [], posted = [], printed = []\<rparr> = []"
    by simp_all
  show ?thesis
    using h review_truncation [OF h g, of "\<lambda>h. Replied ''ok''" 1 1
        "\<lparr>chat_history = [], posted = [], printed = []\<rparr>"]
    by (simp only: demo_ext demo_name demo_cut e if_False append_Nil simp_thms)
qed


section \<open>The catalogue\<close>

declare generate_project_tree.simps [simp del]
declare collect_source_files.simps [simp del]
declare tree_rows.simps [simp del]

lemma join_Cons: "ys \<noteq> [] \<Longrightarrow> join sep (x # ys) = x @ sep @ join sep ys"
  by (cases ys) simp_all

lemma join_append:
  "xs \<noteq> [] \<Longrightarrow> ys \<noteq> [] \<Longrightarrow> join sep (xs @ ys) = join sep xs @ sep @ join sep ys"
proof (induction xs)
  case Nil
  then show ?case by simp
next
  case (Cons x xs)
  show ?case
  proof (cases "xs = []")
    case True
    then show ?thesis using Cons.prems by (simp add: join_Cons)
  next
    case False
    then show ?thesis using Cons by (simp add: join_Cons)
  qed
qed

text \<open>
  Joining the lines of a loop does not tell a group of lines from another group with the
  same joined text, as long as the two are empty together.
\<close>

lemma join_concat_cong:
  assumes "\<forall>x \<in> set xs. (g x = [] \<longleftrightarrow> h x = []) \<and> join sep (g x) = join sep (h x)"
  shows "(concat (map g xs) = [] \<longleftrightarrow> concat (map h xs) = [])
       \<and> join sep (concat (map g xs)) = join sep (concat (map h xs))"
  using assms
proof (induction xs)
  case Nil
  show ?case by simp
next
  case (Cons x xs)
  then have IH: "concat (map g xs) = [] \<longleftrightarrow> concat (map h xs) = []"
      "join sep (concat (map g xs)) = join sep (concat (map h xs))"
    and x: "g x = [] \<longleftrightarrow> h x = []" "join sep (g x) = join sep (h x)"
    by simp_all
  show ?case
  proof (cases "g x = []")
    case True
    then show ?thesis using IH x by simp
  next
    case gx: False
    show ?thesis
    proof (cases "concat (map g xs) = []")
      case True
      then have "concat (map h xs) = []"
        using IH by blast
      then show ?thesis
        using x by (simp only: list.map concat.simps True append_Nil2)
    next
      case False
      then have hs: "concat (map h xs) \<noteq> []" and hx: "h x \<noteq> []"
        using IH x gx by blast+
      have "join sep (g x @ concat (map g xs)) = join sep (g x) @ sep @ join sep (concat (map g xs))"
        by (rule join_append [OF gx False])
      moreover have "join sep (h x @ concat (map h xs)) = join sep (h x) @ sep @ join sep (concat (map h xs))"
        by (rule join_append [OF hx hs])
      ultimately have "join sep (g x @ concat (map g xs)) = join sep (h x @ concat (map h xs))"
        using IH(2) x(2) by (simp only:)
      then show ?thesis
        using gx hx by (simp only: list.map concat.simps append_is_Nil_conv simp_thms)
    qed
  qed
qed

text \<open>The rendering is the text of the rows, joined line by line.\<close>

lemma tree_rows_render:
  "generate_project_tree entries indent = join NL (map snd (tree_rows p entries indent))"
proof (induction p entries indent rule: tree_rows.induct)
  case (1 p entries indent)
  let ?g = "\<lambda>item. if fst item \<in> EXCLUDED_DIRS then []
          else (indent @ branch_mark @ fst item) #
               (case snd item of
                  Dir sub \<Rightarrow> [generate_project_tree sub (indent @ nest_mark)]
                | File _ \<Rightarrow> [])"
  let ?r = "\<lambda>item. if fst item \<in> EXCLUDED_DIRS then []
          else (Some (p @ [fst item]), indent @ branch_mark @ fst item) #
               (case snd item of
                  Dir sub \<Rightarrow>
                    (let rows = tree_rows (p @ [fst item]) sub (indent @ nest_mark)
                     in if rows = [] then [(None, [])] else rows)
                | File _ \<Rightarrow> [])"
  have "\<forall>x \<in> set (sort_key fst entries).
          (?g x = [] \<longleftrightarrow> map snd (?r x) = []) \<and> join NL (?g x) = join NL (map snd (?r x))"
  proof
    fix x
    assume x: "x \<in> set (sort_key fst entries)"
    show "(?g x = [] \<longleftrightarrow> map snd (?r x) = []) \<and> join NL (?g x) = join NL (map snd (?r x))"
    proof (cases "fst x \<in> EXCLUDED_DIRS")
      case True
      then show ?thesis by simp
    next
      case False
      show ?thesis
      proof (cases "snd x")
        case (File c)
        then show ?thesis using False by simp
      next
        case (Dir sub)
        have "generate_project_tree sub (indent @ nest_mark)
                = join NL (map snd (tree_rows (p @ [fst x]) sub (indent @ nest_mark)))"
          using "1.IH" [OF x False Dir] .
        then show ?thesis
          using False Dir by (simp add: Let_def join_Cons)
      qed
    qed
  qed
  then have "join NL (concat (map ?g (sort_key fst entries)))
               = join NL (concat (map (\<lambda>x. map snd (?r x)) (sort_key fst entries)))"
    using join_concat_cong [of "sort_key fst entries" ?g "\<lambda>x. map snd (?r x)" NL] by blast
  then show ?case
    by (subst generate_project_tree.simps, subst tree_rows.simps)
       (simp only: map_concat map_map comp_def)
qed

text \<open>Every row that names an entry names it by a path free of excluded names.\<close>

lemma tree_rows_origin:
  "(Some q, t) \<in> set (tree_rows p entries indent) \<Longrightarrow>
     \<exists>r ind. q = p @ r \<and> r \<noteq> [] \<and> (\<forall>d \<in> set r. d \<notin> EXCLUDED_DIRS) \<and> t = ind @ branch_mark @ last q"
proof (induction p entries indent arbitrary: q t rule: tree_rows.induct)
  case (1 p entries indent)
  from "1.prems" obtain x where x: "x \<in> set (sort_key fst entries)"
    and ex: "fst x \<notin> EXCLUDED_DIRS"
    and mem: "(Some q, t) = (Some (p @ [fst x]), indent @ branch_mark @ fst x)
        \<or> (\<exists>sub. snd x = Dir sub
              \<and> (Some q, t) \<in> set (tree_rows (p @ [fst x]) sub (indent @ nest_mark)))"
    by (subst (asm) tree_rows.simps)
       (auto simp: Let_def split: if_splits node.splits)
  from mem show ?case
  proof
    assume "(Some q, t) = (Some (p @ [fst x]), indent @ branch_mark @ fst x)"
    then have "q = p @ [fst x] \<and> [fst x] \<noteq> [] \<and> (\<forall>d \<in> set [fst x]. d \<notin> EXCLUDED_DIRS)
        \<and> t = indent @ branch_mark @ last q"
      using ex by simp
    then show ?thesis by blast
  next
    assume "\<exists>sub. snd x = Dir sub
              \<and> (Some q, t) \<in> set (tree_rows (p @ [fst x]) sub (indent @ nest_mark))"
    then obtain sub where sub: "snd x = Dir sub"
      and row: "(Some q, t) \<in> set (tree_rows (p @ [fst x]) sub (indent @ nest_mark))"
      by blast
    from "1.IH" [OF x ex sub row] obtain r ind where
      r: "q = (p @ [fst x]) @ r" "r \<noteq> []" "\<forall>d \<in> set r. d \<notin> EXCLUDED_DIRS"
        "t = ind @ branch_mark @ last q"
      by blast
    then have "q = p @ (fst x # r) \<and> fst x # r \<noteq> [] \<and> (\<forall>d \<in> set (fst x # r). d \<notin> EXCLUDED_DIRS)
        \<and> t = ind @ branch_mark @ last q"
      using ex by simp
    then show ?thesis by blast
  qed
qed

lemma excluded_no_suffix:
  "name \<in> EXCLUDED_DIRS \<Longrightarrow> path_suffix (root @ [name]) = []"
  by (auto simp: EXCLUDED_DIRS_def path_suffix_def path_name_def rfind_def Let_def)

lemma allowed_not_excluded:
  assumes a: "lower (path_suffix (root @ [name])) \<in> ALLOWED_EXTENSIONS"
  shows "name \<notin> EXCLUDED_DIRS"
proof
  assume "name \<in> EXCLUDED_DIRS"
  then have "path_suffix (root @ [name]) = []"
    by (rule excluded_no_suffix)
  then show False
    using a by (simp add: lower_def ALLOWED_EXTENSIONS_def)
qed

text \<open>Every collected file lies below the root, on a path free of excluded names.\<close>

lemma collect_origin:
  "f \<in> set (collect_source_files root entries) \<Longrightarrow>
     \<exists>r. f = root @ r \<and> r \<noteq> [] \<and> (\<forall>d \<in> set r. d \<notin> EXCLUDED_DIRS)"
proof (induction root entries arbitrary: f rule: collect_source_files.induct)
  case (1 root entries)
  from "1.prems" have mem:
    "(\<exists>name. f = root @ [name] \<and> lower (path_suffix (root @ [name])) \<in> ALLOWED_EXTENSIONS)
     \<or> (\<exists>d sub. d \<in> set entries \<and> fst d \<notin> EXCLUDED_DIRS \<and> snd d = Dir sub
            \<and> f \<in> set (collect_source_files (root @ [fst d]) sub))"
    by (subst (asm) collect_source_files.simps)
       (auto simp: Let_def split: node.splits)
  from mem show ?case
  proof
    assume "\<exists>name. f = root @ [name] \<and> lower (path_suffix (root @ [name])) \<in> ALLOWED_EXTENSIONS"
    then obtain name where "f = root @ [name]"
      and "lower (path_suffix (root @ [name])) \<in> ALLOWED_EXTENSIONS"
      by blast
    then have "f = root @ [name] \<and> [name] \<noteq> [] \<and> (\<forall>d \<in> set [name]. d \<notin> EXCLUDED_DIRS)"
      using allowed_not_excluded by simp
    then show ?thesis by blast
  next
    assume "\<exists>d sub. d \<in> set entries \<and> fst d \<notin> EXCLUDED_DIRS \<and> snd d = Dir sub
            \<and> f \<in> set (collect_source_files (root @ [fst d]) sub)"
    then obtain d sub where d: "d \<in> set entries" "fst d \<notin> EXCLUDED_DIRS" "snd d = Dir sub"
      and f: "f \<in> set (collect_source_files (root @ [fst d]) sub)"
      by blast
    have "d \<in> set (filter (\<lambda>d. fst d \<notin> EXCLUDED_DIRS)
             (filter (\<lambda>d. case snd d of File _ \<Rightarrow> False | Dir _ \<Rightarrow> True) entries))"
      using d by simp
    from "1.IH" [OF refl refl refl this d(3) f] obtain r where
      r: "f = (root @ [fst d]) @ r" "r \<noteq> []" "\<forall>x \<in> set r. x \<notin> EXCLUDED_DIRS"
      by blast
    then have "f = root @ (fst d # r) \<and> fst d # r \<noteq> [] \<and> (\<forall>x \<in> set (fst d # r). x \<notin> EXCLUDED_DIRS)"
      using d(2) by simp
    then show ?thesis by blast
  qed
qed

text \<open>An entry with an excluded name adds nothing to the rendering, whatever it is.\<close>

lemma concat_map_filter_empty:
  "(\<forall>x. \<not> P x \<longrightarrow> g x = []) \<Longrightarrow> concat (map g (filter P xs)) = concat (map g xs)"
  by (induction xs) simp_all

lemma tree_filter_excluded:
  "generate_project_tree (filter (\<lambda>e. fst e \<notin> EXCLUDED_DIRS) entries) indent
     = generate_project_tree entries indent"
proof -
  let ?g = "\<lambda>item. if fst item \<in> EXCLUDED_DIRS then []
          else (indent @ branch_mark @ fst item) #
               (case snd item of
                  Dir sub \<Rightarrow> [generate_project_tree sub (indent @ nest_mark)]
                | File _ \<Rightarrow> [])"
  let ?P = "\<lambda>e. fst e \<notin> EXCLUDED_DIRS"
  have "concat (map ?g (sort_key fst (filter ?P entries)))
          = concat (map ?g (filter ?P (sort_key fst entries)))"
    by (simp only: filter_sort)
  also have "\<dots> = concat (map ?g (sort_key fst entries))"
    by (rule concat_map_filter_empty) simp
  finally show ?thesis
    by (subst generate_project_tree.simps, subst (2) generate_project_tree.simps) (simp only:)
qed

lemma collect_skips_excluded:
  assumes "name \<in> EXCLUDED_DIRS"
  shows "collect_source_files root (es1 @ (name, n) # es2) = collect_source_files root (es1 @ es2)"
proof -
  have "lower (path_suffix (root @ [name])) \<notin> ALLOWED_EXTENSIONS"
    using assms allowed_not_excluded by blast
  then show ?thesis
    unfolding collect_source_files.simps [of root "es1 @ (name, n) # es2"]
      collect_source_files.simps [of root "es1 @ es2"]
    using assms by (simp add: Let_def split: node.splits)
qed

text \<open>
  C8. The rendering of the tree is the text of its rows joined line by line, and every
  row that names an entry names one whose path from the rendered directory has no
  excluded name in it, at any depth. Every collected file lies below the root on a path
  with no excluded name in it, at any depth, and an entry with an excluded name,
  whatever is in it, leaves the collected files as they are without it.
\<close>

theorem exclusion_recursive:
  "generate_project_tree entries indent = join NL (map snd (tree_rows [] entries indent))
   \<and> (\<forall>row \<in> set (tree_rows [] entries indent). \<forall>q. fst row = Some q \<longrightarrow>
         q \<noteq> [] \<and> (\<forall>d \<in> set q. d \<notin> EXCLUDED_DIRS) \<and> (\<exists>ind. snd row = ind @ branch_mark @ last q))
   \<and> (\<forall>f \<in> set (collect_source_files root entries).
         length root < length f \<and> take (length root) f = root
         \<and> (\<forall>d \<in> set (drop (length root) f). d \<notin> EXCLUDED_DIRS))
   \<and> (\<forall>name n es1 es2. name \<in> EXCLUDED_DIRS \<longrightarrow>
         collect_source_files root (es1 @ (name, n) # es2) = collect_source_files root (es1 @ es2))"
proof (intro conjI ballI allI impI)
  show "generate_project_tree entries indent = join NL (map snd (tree_rows [] entries indent))"
    by (rule tree_rows_render)
next
  fix row q
  assume "row \<in> set (tree_rows [] entries indent)" and "fst row = Some q"
  then have "(Some q, snd row) \<in> set (tree_rows [] entries indent)"
    by (metis prod.collapse)
  from tree_rows_origin [OF this] obtain r ind where
    r: "q = [] @ r" "r \<noteq> []" "\<forall>d \<in> set r. d \<notin> EXCLUDED_DIRS" "snd row = ind @ branch_mark @ last q"
    by blast
  show "q \<noteq> []" using r by simp
  show "\<exists>ind. snd row = ind @ branch_mark @ last q" using r by blast
  fix d
  assume "d \<in> set q"
  then show "d \<notin> EXCLUDED_DIRS" using r by simp
next
  fix f
  assume "f \<in> set (collect_source_files root entries)"
  from collect_origin [OF this] obtain r where
    r: "f = root @ r" "r \<noteq> []" "\<forall>d \<in> set r. d \<notin> EXCLUDED_DIRS"
    by blast
  show "length root < length f" using r by simp
  show "take (length root) f = root" using r by simp
  fix d
  assume "d \<in> set (drop (length root) f)"
  then show "d \<notin> EXCLUDED_DIRS" using r by simp
next
  fix name n es1 es2
  assume "name \<in> EXCLUDED_DIRS"
  then show "collect_source_files root (es1 @ (name, n) # es2) = collect_source_files root (es1 @ es2)"
    by (rule collect_skips_excluded)
qed

lemma demo_rows:
  "map fst (tree_rows []
      [(''src'', Dir [(''main.py'', File (Some ''print(1)'')),
                      (''build'', Dir [(''gen.py'', File (Some ''x''))])]),
       (''.git'', Dir [(''hook.py'', File (Some ''y''))]),
       (''notes.txt'', File (Some ''n''))] [])
   = [Some [''notes.txt''], Some [''src''], Some [''src'', ''main.py'']]"
  by code_simp

lemma demo_files:
  "collect_source_files []
      [(''src'', Dir [(''main.py'', File (Some ''print(1)'')),
                      (''build'', Dir [(''gen.py'', File (Some ''x''))])]),
       (''.git'', Dir [(''hook.py'', File (Some ''y''))]),
       (''notes.txt'', File (Some ''n''))]
   = [[''src'', ''main.py'']]"
  by code_simp

theorem exclusion_recursive_witness:
  "generate_project_tree
      [(''src'', Dir [(''main.py'', File (Some ''print(1)'')),
                      (''build'', Dir [(''gen.py'', File (Some ''x''))])]),
       (''.git'', Dir [(''hook.py'', File (Some ''y''))]),
       (''notes.txt'', File (Some ''n''))] []
     = join NL (map snd (tree_rows []
         [(''src'', Dir [(''main.py'', File (Some ''print(1)'')),
                         (''build'', Dir [(''gen.py'', File (Some ''x''))])]),
          (''.git'', Dir [(''hook.py'', File (Some ''y''))]),
          (''notes.txt'', File (Some ''n''))] []))
   \<and> map fst (tree_rows []
        [(''src'', Dir [(''main.py'', File (Some ''print(1)'')),
                        (''build'', Dir [(''gen.py'', File (Some ''x''))])]),
         (''.git'', Dir [(''hook.py'', File (Some ''y''))]),
         (''notes.txt'', File (Some ''n''))] [])
       = [Some [''notes.txt''], Some [''src''], Some [''src'', ''main.py'']]
   \<and> collect_source_files []
        [(''src'', Dir [(''main.py'', File (Some ''print(1)'')),
                        (''build'', Dir [(''gen.py'', File (Some ''x''))])]),
         (''.git'', Dir [(''hook.py'', File (Some ''y''))]),
         (''notes.txt'', File (Some ''n''))]
       = [[''src'', ''main.py'']]"
  using exclusion_recursive [of
      "[(''src'', Dir [(''main.py'', File (Some ''print(1)'')),
                       (''build'', Dir [(''gen.py'', File (Some ''x''))])]),
        (''.git'', Dir [(''hook.py'', File (Some ''y''))]),
        (''notes.txt'', File (Some ''n''))]" "[]" "[]"]
    demo_rows demo_files
  by (simp only: simp_thms)

text \<open>
  C10. An entry whose name is in the exclusion set is left out of the rendering also
  when it is a regular file: the rendering of a listing with such a file is the
  rendering of the listing without it, and so for such an entry of any kind.
\<close>

theorem excluded_file_omitted:
  assumes "name \<in> EXCLUDED_DIRS"
  shows "generate_project_tree (es1 @ (name, File c) # es2) indent
           = generate_project_tree (es1 @ es2) indent
       \<and> generate_project_tree (es1 @ (name, n) # es2) indent
           = generate_project_tree (es1 @ es2) indent"
proof -
  have "generate_project_tree (es1 @ (name, m) # es2) indent
          = generate_project_tree (es1 @ es2) indent" for m
  proof -
    have "filter (\<lambda>e. fst e \<notin> EXCLUDED_DIRS) (es1 @ (name, m) # es2)
            = filter (\<lambda>e. fst e \<notin> EXCLUDED_DIRS) (es1 @ es2)"
      using assms by simp
    then show ?thesis
      using tree_filter_excluded [of "es1 @ (name, m) # es2" indent]
        tree_filter_excluded [of "es1 @ es2" indent]
      by (simp only:)
  qed
  then show ?thesis by blast
qed

lemma demo_build_file:
  "generate_project_tree [(''a.py'', File (Some ''x''))] [] = branch_mark @ ''a.py''"
  by (simp add: generate_project_tree.simps EXCLUDED_DIRS_def)

theorem excluded_file_omitted_witness:
  "''build'' \<in> EXCLUDED_DIRS
   \<and> generate_project_tree ([(''a.py'', File (Some ''x''))] @ (''build'', File (Some ''y'')) # []) []
       = branch_mark @ ''a.py''"
proof -
  have h: "''build'' \<in> EXCLUDED_DIRS"
    by (simp add: EXCLUDED_DIRS_def)
  show ?thesis
    using h excluded_file_omitted [OF h, of "[(''a.py'', File (Some ''x''))]" "Some ''y''" "[]" "[]"]
      demo_build_file
    by simp
qed


section \<open>The analysis runs to its end\<close>

text \<open>
  Whatever request errors the endpoint answers with, as long as no other exception
  leaves \<open>call_ollama_chat\<close>, the analysis of a directory without a README, run without
  a console, goes through its four steps, returns, and leaves the transcript cleared.
  (With a console, printing a reply can raise as well, which the model leaves out.)
\<close>

lemma call_ollama_chat_returns:
  assumes "\<forall>h e. net h \<noteq> Crashed e"
  shows "\<exists>r t. call_ollama_chat net p s = (Inr r, t)"
proof (cases "net (chat_history s @ [\<lparr>role = User, content = p\<rparr>])")
  case (Replied c)
  then show ?thesis by (simp add: call_ollama_chat_def Let_def)
next
  case (RequestFailed e)
  then show ?thesis by (simp add: call_ollama_chat_def Let_def)
next
  case (Crashed e)
  then show ?thesis using assms by blast
qed

lemma analysis_not_aborted:
  assumes net: "\<forall>h e. net h \<noteq> Crashed e"
    and dir: "isdir fs p"
    and readme: "\<not> path_exists fs (p @ [''README.md''])"
  shows "fst (analyze_project False net fs p d l s) = None
       \<and> chat_history (snd (analyze_project False net fs p d l s)) = []"
proof -
  have ex: "path_exists fs p"
    using dir by (auto simp: isdir_def path_exists_def split: option.splits)
  note ok = call_ollama_chat_returns [OF net]
  define s1 where "s1 = emit (StepBanner 1) (emit (ProjectInfo d ''README.md not found.'') (emit (Analyzing p) s))"
  obtain r1 t1 where c1: "call_ollama_chat net (description_prompt d ''README.md not found.'') s1 = (Inr r1, t1)"
    using ok by blast
  define tree_str where "tree_str = generate_project_tree (listing fs p) []"
  define s4 where "s4 = emit (TreeDump tree_str) (emit (StepBanner 2) (emit (Response r1) t1))"
  obtain r2 t2 where c2: "call_ollama_chat net (tree_prompt tree_str) s4 = (Inr r2, t2)"
    using ok by blast
  define files where "files = collect_source_files p (listing fs p)"
  define s7 where "s7 = emit (FoundFiles (length files)) (emit (Response r2) t2)"
  define s8 where "s8 = (if limit_applies files l
                      then emit (Limiting (case l of Some k \<Rightarrow> k | None \<Rightarrow> 0)) s7
                      else s7)"
  define s11 where "s11 = emit (StepBanner 4) (review_files False net fs p 1 (length (limit_files files l))
      (limit_files files l) (emit (ReviewBanner (length (limit_files files l))) s8))"
  obtain r3 t3 where c3: "call_ollama_chat net summary_prompt s11 = (Inr r3, t3)"
    using ok by blast
  have "analyze_project False net fs p d l s
          = (None, clear_history (emit (Response r3) (emit SummaryHeader t3)))"
    unfolding analyze_project_def Let_def
    using dir ex readme c1 c2 c3
    unfolding s1_def s4_def tree_str_def s7_def s8_def s11_def files_def
    by simp
  then show ?thesis
    by (simp add: clear_history_def emit_def)
qed


end
